theory Spec2Isabelle
  imports Main
begin

section \<open>The routing simulation of Experiment\_06/calculator.js\<close>

text \<open>
  The file holds a command-line calculator followed by a routing simulation: the classes
  \<^verbatim>\<open>Packet\<close> and \<^verbatim>\<open>Router\<close> and the driver \<^verbatim>\<open>runSimulation\<close>. This theory embeds
  the routing simulation.

  Routers are objects that hold references to each other (the values of
  \<^verbatim>\<open>this.neighbors\<close>) and are mutated in place, so they live in an explicit store: a
  reference is an address and the store maps every address to a router. A reference held by
  a JavaScript program always designates an object, hence the store is a total function.
  \<^verbatim>\<open>console.log\<close> is the only other effect; the console is the list of the messages
  logged so far, one string for each call.
\<close>

subsection \<open>JavaScript Map, with insertion order\<close>

text \<open>
  A \<^verbatim>\<open>Map\<close> iterates in insertion order, and \<^verbatim>\<open>set\<close> on a key that is present
  replaces the value where the entry stands, while a new key goes to the end. The model is
  the list of entries in iteration order.
\<close>

type_synonym ('k, 'v) js_map = "('k \<times> 'v) list"

fun Map_set :: "'k \<Rightarrow> 'v \<Rightarrow> ('k, 'v) js_map \<Rightarrow> ('k, 'v) js_map" where
  "Map_set k v [] = [(k, v)]"
| "Map_set k v ((k', v') # m) = (if k' = k then (k, v) # m else (k', v') # Map_set k v m)"

text \<open>
  \<^verbatim>\<open>get\<close> returns \<^verbatim>\<open>undefined\<close> for a missing key, here \<open>None\<close>;
  \<^verbatim>\<open>has\<close> is true exactly when the key has an entry, that is when the result is
  not \<open>None\<close>.
\<close>

fun Map_get :: "('k, 'v) js_map \<Rightarrow> 'k \<Rightarrow> 'v option" where
  "Map_get [] k = None"
| "Map_get ((k', v') # m) k = (if k' = k then Some v' else Map_get m k)"

subsection \<open>Strings: split, slice, join\<close>

text \<open>
  \<^verbatim>\<open>s.split(sep)\<close> for a separator of one character: the pieces between the
  separators, at least one piece (\<^verbatim>\<open>"".split(".")\<close> is \<^verbatim>\<open>[""]\<close>).
\<close>

fun split :: "'a \<Rightarrow> 'a list \<Rightarrow> 'a list list" where
  "split sep [] = [[]]"
| "split sep (c # cs) =
     (if c = sep then [] # split sep cs
      else (case split sep cs of
              [] \<Rightarrow> [[c]]
            | piece # pieces \<Rightarrow> (c # piece) # pieces))"

text \<open>\<^verbatim>\<open>a.slice(b, e)\<close> for indices that are not negative.\<close>

definition slice :: "nat \<Rightarrow> nat \<Rightarrow> 'a list \<Rightarrow> 'a list" where
  "slice b e xs = take (e - b) (drop b xs)"

fun join :: "'a list \<Rightarrow> 'a list list \<Rightarrow> 'a list" where
  "join sep [] = []"
| "join sep [x] = x"
| "join sep (x # y # ys) = x @ sep @ join sep (y # ys)"

subsection \<open>Packet\<close>

record packet =
  sourceIp :: string
  destinationIp :: string
  content :: string
  ttl :: int

definition Packet :: "string \<Rightarrow> string \<Rightarrow> string \<Rightarrow> packet" where
  "Packet src dst payload =
     \<lparr>sourceIp = src, destinationIp = dst, content = payload, ttl = 32\<rparr>"

definition toString :: "packet \<Rightarrow> string" where
  "toString p = ''Packet from '' @ sourceIp p @ '' to '' @ destinationIp p"

subsection \<open>Router and the store\<close>

type_synonym ref = nat

record router =
  name :: string
  routingTable :: "(string, string) js_map"
  neighbors :: "(string, ref) js_map"

record world =
  heap :: "ref \<Rightarrow> router"
  next_ref :: ref
  console :: "string list"

definition console_log :: "string \<Rightarrow> world \<Rightarrow> world" where
  "console_log msg w = w\<lparr>console := console w @ [msg]\<rparr>"

text \<open>\<^verbatim>\<open>new Router(name)\<close>: a fresh object with two empty maps.\<close>

definition new_Router :: "string \<Rightarrow> world \<Rightarrow> ref \<times> world" where
  "new_Router nm w =
     (next_ref w,
      w\<lparr>heap := (heap w)(next_ref w := \<lparr>name = nm, routingTable = [], neighbors = []\<rparr>),
        next_ref := Suc (next_ref w)\<rparr>)"

definition addNeighbor :: "ref \<Rightarrow> ref \<Rightarrow> world \<Rightarrow> world" where
  "addNeighbor this neighborRouter w =
     (let w1 = w\<lparr>heap := (heap w)(this := (heap w this)
                 \<lparr>neighbors := Map_set (name (heap w neighborRouter)) neighborRouter
                                 (neighbors (heap w this))\<rparr>)\<rparr>
      in console_log (''INFO ['' @ name (heap w1 this) @ '']: Established connection to neighbor ''
                        @ name (heap w1 neighborRouter)) w1)"

text \<open>
  The third parameter is optional with default 1: \<open>None\<close> is the call that omits it.
  The body logs and stores; it never reads \<open>metric\<close>.
\<close>

definition receiveRoutingUpdate :: "ref \<Rightarrow> string \<Rightarrow> string \<Rightarrow> int option \<Rightarrow> world \<Rightarrow> world" where
  "receiveRoutingUpdate this networkPrefix nextHop metric_arg w =
     (let metric = (case metric_arg of None \<Rightarrow> 1 | Some m \<Rightarrow> m);
          w1 = console_log (''UPDATE ['' @ name (heap w this) @ '']: Received route for ''
                              @ networkPrefix @ '' via '' @ nextHop) w
      in w1\<lparr>heap := (heap w1)(this := (heap w1 this)
              \<lparr>routingTable := Map_set networkPrefix nextHop (routingTable (heap w1 this))\<rparr>)\<rparr>)"

definition getNetworkPrefix :: "string \<Rightarrow> string" where
  "getNetworkPrefix ip = join ''.'' (slice 0 3 (split (CHR ''.'') ip)) @ ''.0/24''"


subsection \<open>advertiseRoutes\<close>

text \<open>
  The two \<^verbatim>\<open>for ... of\<close> loops run over the live maps: an iterator of a
  \<^verbatim>\<open>Map\<close> is a position in the entry list, and reads the entry there when it gets to
  it. A neighbor's handle may be the router itself, so the body can write to the table the
  outer loop is reading. Both loops are therefore recursions on the position that read the
  store of the moment. The inner loop is \<open>advertise_neighbors\<close>, the outer one
  \<open>advertise_entries\<close>.
\<close>

lemma neighbors_receiveRoutingUpdate:
  "neighbors (heap (receiveRoutingUpdate r p nh m w) t) = neighbors (heap w t)"
  by (simp add: receiveRoutingUpdate_def console_log_def)

lemma name_receiveRoutingUpdate:
  "name (heap (receiveRoutingUpdate r p nh m w) t) = name (heap w t)"
  by (simp add: receiveRoutingUpdate_def console_log_def)

function advertise_neighbors :: "ref \<Rightarrow> string \<Rightarrow> string \<Rightarrow> nat \<Rightarrow> world \<Rightarrow> world" where
  "advertise_neighbors this prefix nextHop j w =
     (if j < length (neighbors (heap w this)) then
        (case neighbors (heap w this) ! j of
           (neighborName, neighbor) \<Rightarrow>
             advertise_neighbors this prefix nextHop (Suc j)
               (if neighborName \<noteq> nextHop
                then receiveRoutingUpdate neighbor prefix (name (heap w this)) None w
                else w))
      else w)"
  by pat_completeness auto
termination
  apply (relation "measure (\<lambda>(this, prefix, nextHop, j, w). length (neighbors (heap w this)) - j)")
  apply (auto simp: neighbors_receiveRoutingUpdate)
  done

declare advertise_neighbors.simps [simp del]

lemma keys_Map_set:
  "k \<in> fst ` set m \<Longrightarrow> map fst (Map_set k v m) = map fst m"
  by (induction m) force+

lemma drop_Map_set:
  "i < length m \<Longrightarrow> fst (m ! i) = k \<Longrightarrow> drop (Suc i) (Map_set k v m) = drop (Suc i) m"
proof (induction m arbitrary: i)
  case Nil
  then show ?case by simp
next
  case (Cons e m)
  show ?case
  proof (cases i)
    case 0
    with Cons.prems show ?thesis by (cases e) auto
  next
    case (Suc i')
    with Cons show ?thesis by (cases e) auto
  qed
qed

lemma keys_receiveRoutingUpdate:
  "p \<in> fst ` set (routingTable (heap w t)) \<Longrightarrow>
   map fst (routingTable (heap (receiveRoutingUpdate r p nh m w) t)) = map fst (routingTable (heap w t))"
  by (cases "t = r") (simp_all add: receiveRoutingUpdate_def console_log_def keys_Map_set)

lemma keys_advertise_neighbors:
  "p \<in> fst ` set (routingTable (heap w t)) \<Longrightarrow>
   map fst (routingTable (heap (advertise_neighbors this p nh j w) t)) = map fst (routingTable (heap w t))"
proof (induction this p nh j w rule: advertise_neighbors.induct)
  case (1 this p nh j w)
  show ?case
  proof (cases "j < length (neighbors (heap w this))")
    case False
    then show ?thesis by (simp add: advertise_neighbors.simps [of this p nh j w])
  next
    case True
    obtain x y where xy: "neighbors (heap w this) ! j = (x, y)" by (cases "neighbors (heap w this) ! j")
    let ?w' = "if x \<noteq> nh then receiveRoutingUpdate y p (name (heap w this)) None w else w"
    have keys: "map fst (routingTable (heap ?w' t)) = map fst (routingTable (heap w t))"
      using "1.prems" by (simp add: keys_receiveRoutingUpdate)
    then have "p \<in> fst ` set (routingTable (heap ?w' t))"
      using "1.prems" by (metis list.set_map)
    then have "map fst (routingTable (heap (advertise_neighbors this p nh (Suc j) ?w') t))
                 = map fst (routingTable (heap ?w' t))"
      using "1.IH" [OF True xy [symmetric]] by blast
    with keys True xy show ?thesis
      by (simp add: advertise_neighbors.simps [of this p nh j w])
  qed
qed

function advertise_entries :: "ref \<Rightarrow> nat \<Rightarrow> world \<Rightarrow> world" where
  "advertise_entries this i w =
     (if i < length (routingTable (heap w this)) then
        (case routingTable (heap w this) ! i of
           (prefix, nextHop) \<Rightarrow>
             advertise_entries this (Suc i) (advertise_neighbors this prefix nextHop 0 w))
      else w)"
  by pat_completeness auto
termination
proof (relation "measure (\<lambda>(this, i, w). length (routingTable (heap w this)) - i)")
  show "wf (measure (\<lambda>(this :: ref, i, w :: world). length (routingTable (heap w this)) - i))"
    by simp
next
  fix this :: ref and i :: nat and w :: world and x y :: string
  assume i: "i < length (routingTable (heap w this))"
     and xy: "(x, y) = routingTable (heap w this) ! i"
  from i xy have "x \<in> fst ` set (routingTable (heap w this))"
    by (metis fst_conv image_eqI nth_mem)
  then have "length (map fst (routingTable (heap (advertise_neighbors this x y 0 w) this)))
               = length (map fst (routingTable (heap w this)))"
    by (simp only: keys_advertise_neighbors)
  with i show "((this, Suc i, advertise_neighbors this x y 0 w), this, i, w)
                 \<in> measure (\<lambda>(this, i, w). length (routingTable (heap w this)) - i)"
    by simp
qed

declare advertise_entries.simps [simp del]

definition advertiseRoutes :: "ref \<Rightarrow> world \<Rightarrow> world" where
  "advertiseRoutes this w =
     advertise_entries this 0
       (console_log (''ADVERTISE ['' @ name (heap w this) @ '']: Advertising its routes to all neighbors.'') w)"

subsection \<open>receivePacket\<close>

text \<open>
  \<^verbatim>\<open>has\<close> followed by \<^verbatim>\<open>get\<close> on the same key is one lookup: \<open>None\<close> is the
  branch where \<^verbatim>\<open>has\<close> is false. The packet is one object handed from router to
  router; the function returns it as the last router left it.
\<close>

function receivePacket :: "ref \<Rightarrow> packet \<Rightarrow> world \<Rightarrow> packet \<times> world" where
  "receivePacket this packet w =
     (let w1 = console_log (''RECEIVE ['' @ name (heap w this) @ '']: Received '' @ toString packet) w;
          packet1 = packet\<lparr>ttl := ttl packet - 1\<rparr>
      in if ttl packet1 \<le> 0 then
           (packet1, console_log (''DROP ['' @ name (heap w1 this) @ '']: Packet TTL expired. Dropping.'') w1)
         else
           (let destinationNetwork = getNetworkPrefix (destinationIp packet1) in
            case Map_get (routingTable (heap w1 this)) destinationNetwork of
              Some nextHopRouterName \<Rightarrow>
                (case Map_get (neighbors (heap w1 this)) nextHopRouterName of
                   Some nextHopRouter \<Rightarrow>
                     receivePacket nextHopRouter packet1
                       (console_log (''FORWARD ['' @ name (heap w1 this) @ '']: Forwarding packet for ''
                                       @ destinationIp packet1 @ '' to '' @ name (heap w1 nextHopRouter)) w1)
                 | None \<Rightarrow>
                     (packet1, console_log (''DELIVER ['' @ name (heap w1 this) @ '']: Destination ''
                                 @ destinationIp packet1 @ '' is on a directly connected network. Delivered.'') w1))
            | None \<Rightarrow>
                (packet1, console_log (''DROP ['' @ name (heap w1 this) @ '']: No route to ''
                            @ destinationNetwork @ ''. Dropping packet.'') w1)))"
  by pat_completeness auto
termination
  apply (relation "measure (\<lambda>(this, packet, w). nat (ttl packet))")
  apply auto
  done


subsection \<open>printRoutingTable and runSimulation\<close>

definition printRoutingTable :: "ref \<Rightarrow> world \<Rightarrow> world" where
  "printRoutingTable this w =
     (let w1 = console_log (''\<newline>--- Routing Table for '' @ name (heap w this) @ '' ---'') w;
          w2 = (if length (routingTable (heap w1 this)) = 0
                then console_log ''Table is empty.'' w1
                else foldl (\<lambda>s (network, nextHop).
                              console_log (''Destination: '' @ network @ '' -> Next Hop: '' @ nextHop) s)
                       w1 (routingTable (heap w1 this)))
      in console_log ''----------------------------------\<newline>'' w2)"

text \<open>
  The driver, from any world it may start in. It returns its local variables with the
  world, so that the routers and the packet can be inspected afterwards.
\<close>

definition runSimulation :: "world \<Rightarrow> ref \<times> ref \<times> ref \<times> packet \<times> world" where
  "runSimulation w0 =
     (let w = console_log ''--- Initializing Network Simulation ---\<newline>'' w0;
          (R1, w) = new_Router ''R1'' w;
          (R2, w) = new_Router ''R2'' w;
          (R3, w) = new_Router ''R3'' w;
          w = addNeighbor R1 R2 w;
          w = addNeighbor R2 R1 w;
          w = addNeighbor R2 R3 w;
          w = addNeighbor R3 R2 w;
          w = receiveRoutingUpdate R1 ''192.168.1.0/24'' ''R1'' None w;
          w = receiveRoutingUpdate R2 ''192.168.2.0/24'' ''R2'' None w;
          w = receiveRoutingUpdate R3 ''192.168.3.0/24'' ''R3'' None w;
          w = console_log ''\<newline>--- Routing Tables Before Dynamic Updates ---'' w;
          w = printRoutingTable R1 w;
          w = printRoutingTable R2 w;
          w = printRoutingTable R3 w;
          w = console_log ''\<newline>--- Simulating OSPF Convergence ---\<newline>'' w;
          w = advertiseRoutes R1 w;
          w = advertiseRoutes R3 w;
          w = advertiseRoutes R2 w;
          w = console_log ''\<newline>--- Routing Tables After Dynamic Updates ---'' w;
          w = printRoutingTable R1 w;
          w = printRoutingTable R2 w;
          w = printRoutingTable R3 w;
          w = console_log ''\<newline>--- Simulating Packet Transmission ---'' w;
          myPacket = Packet ''192.168.1.10'' ''192.168.3.15'' ''Hello World!'';
          w = console_log (''Starting transmission of '' @ toString myPacket @ '' from R1...'') w;
          (myPacket, w) = receivePacket R1 myPacket w;
          w = console_log ''\<newline>--- Simulation Complete ---'' w
      in (R1, R2, R3, myPacket, w))"

subsection \<open>Split horizon, as the specification words it\<close>

text \<open>
  The specification of \<^verbatim>\<open>advertiseRoutes\<close>: for every entry (prefix, next hop) of the
  router's table, an update for the prefix goes to every neighbor except the one whose
  name is the next hop. \<open>split_horizon_updates\<close> lists these updates in the order of the
  table and, for one entry, of the neighbors: the name under which the neighbor is
  registered, its handle, and the prefix. \<open>send_updates\<close> makes the calls
  \<^verbatim>\<open>neighbor.receiveRoutingUpdate(prefix, selfId)\<close> one after the other.
\<close>

definition split_horizon_updates :: "router \<Rightarrow> (string \<times> ref \<times> string) list" where
  "split_horizon_updates r =
     [(neighborName, neighbor, prefix).
        (prefix, nextHop) \<leftarrow> routingTable r,
        (neighborName, neighbor) \<leftarrow> neighbors r,
        neighborName \<noteq> nextHop]"

definition send_updates :: "string \<Rightarrow> (string \<times> ref \<times> string) list \<Rightarrow> world \<Rightarrow> world" where
  "send_updates selfId updates w =
     foldl (\<lambda>s (neighborName, neighbor, prefix). receiveRoutingUpdate neighbor prefix selfId None s)
       w updates"

text \<open>The updates one table entry gives rise to.\<close>

definition entry_updates :: "(string, ref) js_map \<Rightarrow> string \<Rightarrow> string \<Rightarrow> (string \<times> ref \<times> string) list" where
  "entry_updates nbs pfx nh = [(nn, nb, pfx). (nn, nb) \<leftarrow> nbs, nn \<noteq> nh]"

subsection \<open>Reading the console\<close>

text \<open>
  Every call of \<^verbatim>\<open>receivePacket\<close> logs first, and only there, a message that starts
  with \<^verbatim>\<open>RECEIVE [\<close>: the number of such messages is the number of calls. The message
  of a packet dropped for its TTL starts with \<^verbatim>\<open>DROP [\<close> and ends with
  \<^verbatim>\<open>]: Packet TTL expired. Dropping.\<close>; no other message of \<^verbatim>\<open>receivePacket\<close>
  does.
\<close>

definition starts_with :: "'a list \<Rightarrow> 'a list \<Rightarrow> bool" where
  "starts_with pre s = (take (length pre) s = pre)"

definition ends_with :: "'a list \<Rightarrow> 'a list \<Rightarrow> bool" where
  "ends_with post s = (take (length post) (rev s) = rev post)"

definition is_RECEIVE :: "string \<Rightarrow> bool" where
  "is_RECEIVE msg = starts_with ''RECEIVE ['' msg"

definition is_TTL_expired :: "string \<Rightarrow> bool" where
  "is_TTL_expired msg =
     (starts_with ''DROP ['' msg \<and> ends_with '']: Packet TTL expired. Dropping.'' msg)"

definition invocations :: "string list \<Rightarrow> nat" where
  "invocations out = length (filter is_RECEIVE out)"

definition output_since :: "world \<Rightarrow> world \<Rightarrow> string list" where
  "output_since w w' = drop (length (console w)) (console w')"

subsection \<open>Worlds to run the model in\<close>

text \<open>One router object at every address, all named R1 and with one route.\<close>

definition example_world :: world where
  "example_world =
     \<lparr>heap = (\<lambda>_. \<lparr>name = ''R1'', routingTable = [(''10.0.0.0/24'', ''R2'')], neighbors = []\<rparr>),
      next_ref = 0, console = []\<rparr>"

text \<open>Two routers that send packets for 10.0.0.0/24 to each other.\<close>

definition loop_world :: world where
  "loop_world =
     \<lparr>heap = (\<lambda>_. \<lparr>name = ''A'', routingTable = [(''10.0.0.0/24'', ''B'')], neighbors = [(''B'', 1)]\<rparr>)
               (1 := \<lparr>name = ''B'', routingTable = [(''10.0.0.0/24'', ''A'')], neighbors = [(''A'', 0)]\<rparr>),
      next_ref = 2, console = []\<rparr>"

text \<open>A router R2 between R1 and R3 that has learned their routes.\<close>

definition hub_world :: world where
  "hub_world =
     \<lparr>heap = (\<lambda>_. \<lparr>name = ''R2'',
                       routingTable = [(''192.168.2.0/24'', ''R2''), (''192.168.1.0/24'', ''R1''),
                                       (''192.168.3.0/24'', ''R3'')],
                       neighbors = [(''R1'', 1), (''R3'', 2)]\<rparr>)
               (1 := \<lparr>name = ''R1'', routingTable = [(''192.168.1.0/24'', ''R1'')], neighbors = [(''R2'', 0)]\<rparr>,
                2 := \<lparr>name = ''R3'', routingTable = [(''192.168.3.0/24'', ''R3'')], neighbors = [(''R2'', 0)]\<rparr>),
      next_ref = 3, console = []\<rparr>"

section \<open>Prefix derivation\<close>

lemma split_not_Nil: "split sep s \<noteq> []"
  by (induction s) (auto split: list.splits)

lemma split_append_sep: "sep \<notin> set a \<Longrightarrow> split sep (a @ sep # rest) = a # split sep rest"
  by (induction a) auto

lemma join_split: "join [sep] (split sep s) = s"
proof (induction s)
  case Nil
  show ?case by simp
next
  case (Cons c cs)
  obtain piece pieces where sp: "split sep cs = piece # pieces"
    using split_not_Nil [of sep cs] by (cases "split sep cs") auto
  show ?case
  proof (cases "c = sep")
    case True
    with Cons sp show ?thesis by simp
  next
    case False
    with Cons sp show ?thesis by (cases pieces) auto
  qed
qed

lemma split_pieces: "sep \<notin> set (concat (split sep s))"
  by (induction s) (auto split: list.splits)

lemma getNetworkPrefix_split:
  "getNetworkPrefix ip = join ''.'' (take 3 (split (CHR ''.'') ip)) @ ''.0/24''"
  by (simp add: getNetworkPrefix_def slice_def)

text \<open>
  C7. \<open>getNetworkPrefix\<close> is a function of the address alone and, on a dotted quad, gives
  the first three octets joined by dots, followed by \<^verbatim>\<open>.0/24\<close>. An octet is a string
  of digits; all the proof needs of the first three is that they hold no dot, and the
  fourth may be any string. In particular the prefix of \<^verbatim>\<open>192.168.3.15\<close> is
  \<^verbatim>\<open>192.168.3.0/24\<close>.
\<close>

theorem getNetworkPrefix_dotted_quad:
  "(CHR ''.'' \<notin> set a \<and> CHR ''.'' \<notin> set b \<and> CHR ''.'' \<notin> set c \<longrightarrow>
      getNetworkPrefix (a @ ''.'' @ b @ ''.'' @ c @ ''.'' @ d) = a @ ''.'' @ b @ ''.'' @ c @ ''.0/24'')
   \<and> getNetworkPrefix ''192.168.3.15'' = ''192.168.3.0/24''"
proof (intro conjI impI)
  assume "CHR ''.'' \<notin> set a \<and> CHR ''.'' \<notin> set b \<and> CHR ''.'' \<notin> set c"
  then have "split (CHR ''.'') (a @ ''.'' @ b @ ''.'' @ c @ ''.'' @ d)
               = a # b # c # split (CHR ''.'') d"
    by (simp add: split_append_sep)
  then show "getNetworkPrefix (a @ ''.'' @ b @ ''.'' @ c @ ''.'' @ d)
               = a @ ''.'' @ b @ ''.'' @ c @ ''.0/24''"
    by (simp add: getNetworkPrefix_split)
next
  show "getNetworkPrefix ''192.168.3.15'' = ''192.168.3.0/24''"
    by (simp add: getNetworkPrefix_split)
qed

theorem getNetworkPrefix_dotted_quad_witness:
  "CHR ''.'' \<notin> set ''10'' \<and> CHR ''.'' \<notin> set ''20'' \<and> CHR ''.'' \<notin> set ''30''
   \<and> getNetworkPrefix ''10.20.30.40'' = ''10.20.30.0/24''"
  using getNetworkPrefix_dotted_quad [of "''10''" "''20''" "''30''" "''40''"] by simp

text \<open>
  C10. \<open>getNetworkPrefix\<close> has a result for every string: the string is its pieces
  between the dots (at least one piece, none holding a dot) joined by dots again, and the
  result is the first three pieces, or all of them when they are fewer, joined by dots and
  followed by \<^verbatim>\<open>.0/24\<close>. So the result always ends in \<^verbatim>\<open>.0/24\<close>.
\<close>

theorem getNetworkPrefix_total:
  "\<exists>pieces. pieces \<noteq> [] \<and> CHR ''.'' \<notin> set (concat pieces) \<and> ip = join ''.'' pieces
      \<and> getNetworkPrefix ip = join ''.'' (take 3 pieces) @ ''.0/24''
      \<and> (\<exists>front. getNetworkPrefix ip = front @ ''.0/24'')"
proof (intro exI conjI)
  show "split (CHR ''.'') ip \<noteq> []" by (rule split_not_Nil)
  show "CHR ''.'' \<notin> set (concat (split (CHR ''.'') ip))" by (rule split_pieces)
  show "ip = join ''.'' (split (CHR ''.'') ip)" by (simp add: join_split)
  show "getNetworkPrefix ip = join ''.'' (take 3 (split (CHR ''.'') ip)) @ ''.0/24''"
    by (rule getNetworkPrefix_split)
  show "getNetworkPrefix ip = join ''.'' (take 3 (split (CHR ''.'') ip)) @ ''.0/24''"
    by (rule getNetworkPrefix_split)
qed

section \<open>Routing updates\<close>

text \<open>
  C9. The metric of a routing update has no influence: two calls of
  \<open>receiveRoutingUpdate\<close> on the same router, prefix, next hop and world that differ
  only in the metric, given or omitted, end in the same world.
\<close>

theorem receiveRoutingUpdate_metric_unused:
  "receiveRoutingUpdate this networkPrefix nextHop metric1 w
     = receiveRoutingUpdate this networkPrefix nextHop metric2 w"
  by (simp add: receiveRoutingUpdate_def)

lemma Map_get_Map_set_same: "Map_get (Map_set k v m) k = Some v"
  by (induction m) auto

lemma Map_get_Map_set_other: "k' \<noteq> k \<Longrightarrow> Map_get (Map_set k v m) k' = Map_get m k'"
  by (induction m) auto

lemma set_keys_Map_set: "fst ` set (Map_set k v m) = insert k (fst ` set m)"
proof (induction m)
  case Nil
  show ?case by simp
next
  case (Cons e m)
  then show ?case by (cases e) (simp add: insert_commute)
qed

lemma distinct_keys_Map_set: "distinct (map fst m) \<Longrightarrow> distinct (map fst (Map_set k v m))"
proof (induction m)
  case Nil
  show ?case by simp
next
  case (Cons e m)
  have "fst e \<noteq> k \<Longrightarrow> fst e \<notin> set (map fst (Map_set k v m))"
    using Cons.prems by (simp add: set_keys_Map_set)
  with Cons show ?case by (cases e) auto
qed

lemma entries_of_key_Map_set:
  "distinct (map fst m) \<Longrightarrow> filter (\<lambda>e. fst e = k) (Map_set k v m) = [(k, v)]"
proof (induction m)
  case Nil
  show ?case by simp
next
  case (Cons e m)
  show ?case
  proof (cases "fst e = k")
    case True
    with Cons.prems have "k \<notin> fst ` set m" by auto
    then have "filter (\<lambda>e. fst e = k) m = []" by (auto simp: filter_empty_conv)
    with True show ?thesis by (cases e) auto
  next
    case False
    with Cons show ?thesis by (cases e) auto
  qed
qed

lemma Map_set_twice: "Map_set k v2 (Map_set k v1 m) = Map_set k v2 m"
  by (induction m) auto

lemma routingTable_receiveRoutingUpdate:
  "routingTable (heap (receiveRoutingUpdate this p nh m w) this) = Map_set p nh (routingTable (heap w this))"
  by (simp add: receiveRoutingUpdate_def console_log_def)

lemma heap_receiveRoutingUpdate_other:
  "r \<noteq> this \<Longrightarrow> heap (receiveRoutingUpdate this p nh m w) r = heap w r"
  by (simp add: receiveRoutingUpdate_def console_log_def)

text \<open>
  C5. \<open>receiveRoutingUpdate\<close> stores the next hop under the prefix whatever the table
  held: afterwards the table maps the prefix to the new next hop, every other prefix and
  every other router is as before, and nothing is compared. A table with one entry for
  each key keeps that property and has exactly one entry for the prefix, the new one. Of
  two updates for the same prefix the second wins, and the table is the one the second
  update alone would have produced.
\<close>

theorem receiveRoutingUpdate_overwrites:
  "(let w' = receiveRoutingUpdate this networkPrefix nextHop metric w;
        w'' = receiveRoutingUpdate this networkPrefix nextHop2 metric2 w'
    in Map_get (routingTable (heap w' this)) networkPrefix = Some nextHop
       \<and> (\<forall>q. q \<noteq> networkPrefix \<longrightarrow>
              Map_get (routingTable (heap w' this)) q = Map_get (routingTable (heap w this)) q)
       \<and> (\<forall>r. r \<noteq> this \<longrightarrow> heap w' r = heap w r)
       \<and> (distinct (map fst (routingTable (heap w this))) \<longrightarrow>
              distinct (map fst (routingTable (heap w' this)))
              \<and> filter (\<lambda>e. fst e = networkPrefix) (routingTable (heap w' this))
                   = [(networkPrefix, nextHop)])
       \<and> Map_get (routingTable (heap w'' this)) networkPrefix = Some nextHop2
       \<and> routingTable (heap w'' this)
            = routingTable (heap (receiveRoutingUpdate this networkPrefix nextHop2 metric2 w) this))"
  unfolding Let_def
  by (intro conjI allI impI)
     (simp_all add: routingTable_receiveRoutingUpdate Map_get_Map_set_same Map_get_Map_set_other
        heap_receiveRoutingUpdate_other distinct_keys_Map_set entries_of_key_Map_set Map_set_twice)

theorem receiveRoutingUpdate_overwrites_witness:
  "(let w' = receiveRoutingUpdate 0 ''10.0.0.0/24'' ''R3'' None example_world;
        w'' = receiveRoutingUpdate 0 ''10.0.0.0/24'' ''R4'' (Some 7) w'
    in routingTable (heap example_world 0) = [(''10.0.0.0/24'', ''R2'')]
       \<and> Map_get (routingTable (heap w' 0)) ''10.0.0.0/24'' = Some ''R3''
       \<and> ''10.0.1.0/24'' \<noteq> ''10.0.0.0/24''
       \<and> Map_get (routingTable (heap w' 0)) ''10.0.1.0/24'' = Map_get (routingTable (heap example_world 0)) ''10.0.1.0/24''
       \<and> (1::nat) \<noteq> 0 \<and> heap w' 1 = heap example_world 1
       \<and> distinct (map fst (routingTable (heap example_world 0)))
       \<and> distinct (map fst (routingTable (heap w' 0)))
       \<and> filter (\<lambda>e. fst e = ''10.0.0.0/24'') (routingTable (heap w' 0)) = [(''10.0.0.0/24'', ''R3'')]
       \<and> routingTable (heap w'' 0) = [(''10.0.0.0/24'', ''R4'')])"
  using receiveRoutingUpdate_overwrites
          [of 0 "''10.0.0.0/24''" "''R3''" None example_world "''R4''" "Some 7"]
  by (simp add: Let_def example_world_def receiveRoutingUpdate_def console_log_def)

section \<open>Route advertisement\<close>

lemma send_updates_Nil: "send_updates selfId [] w = w"
  by (simp add: send_updates_def)

lemma send_updates_Cons:
  "send_updates selfId ((nn, nb, pfx) # ups) w
     = send_updates selfId ups (receiveRoutingUpdate nb pfx selfId None w)"
  by (simp add: send_updates_def)

lemma send_updates_append:
  "send_updates selfId (ups @ ups') w = send_updates selfId ups' (send_updates selfId ups w)"
  by (simp add: send_updates_def)

lemma entry_updates_Nil: "entry_updates [] pfx nh = []"
  by (simp add: entry_updates_def)

lemma entry_updates_Cons:
  "entry_updates ((nn, nb) # nbs) pfx nh
     = (if nn \<noteq> nh then (nn, nb, pfx) # entry_updates nbs pfx nh else entry_updates nbs pfx nh)"
  by (simp add: entry_updates_def)

lemma split_horizon_updates_Cons:
  "routingTable r = (pfx, nh) # tbl \<Longrightarrow>
   split_horizon_updates r
     = entry_updates (neighbors r) pfx nh @ split_horizon_updates (r\<lparr>routingTable := tbl\<rparr>)"
  by (simp add: split_horizon_updates_def entry_updates_def)

lemma advertise_neighbors_sends:
  "advertise_neighbors this pfx nh j w
     = send_updates (name (heap w this)) (entry_updates (drop j (neighbors (heap w this))) pfx nh) w"
proof (induction this pfx nh j w rule: advertise_neighbors.induct)
  case (1 this pfx nh j w)
  show ?case
  proof (cases "j < length (neighbors (heap w this))")
    case False
    then show ?thesis
      by (simp add: advertise_neighbors.simps [of this pfx nh j w] entry_updates_Nil send_updates_Nil)
  next
    case True
    obtain x y where xy: "neighbors (heap w this) ! j = (x, y)"
      by (cases "neighbors (heap w this) ! j")
    let ?w' = "if x \<noteq> nh then receiveRoutingUpdate y pfx (name (heap w this)) None w else w"
    have same: "neighbors (heap ?w' this) = neighbors (heap w this)" "name (heap ?w' this) = name (heap w this)"
      by (simp_all add: neighbors_receiveRoutingUpdate name_receiveRoutingUpdate)
    have dr: "drop j (neighbors (heap w this)) = (x, y) # drop (Suc j) (neighbors (heap w this))"
      using True xy by (simp add: Cons_nth_drop_Suc [symmetric])
    have "advertise_neighbors this pfx nh j w = advertise_neighbors this pfx nh (Suc j) ?w'"
      using True xy by (simp add: advertise_neighbors.simps [of this pfx nh j w])
    also have "\<dots> = send_updates (name (heap w this))
                       (entry_updates (drop (Suc j) (neighbors (heap w this))) pfx nh) ?w'"
      using "1.IH" [OF True xy [symmetric]] by (simp only: same)
    also have "\<dots> = send_updates (name (heap w this))
                       (entry_updates (drop j (neighbors (heap w this))) pfx nh) w"
      by (simp add: dr entry_updates_Cons send_updates_Cons)
    finally show ?thesis .
  qed
qed

lemma send_updates_same:
  "neighbors (heap (send_updates selfId ups w) t) = neighbors (heap w t)
   \<and> name (heap (send_updates selfId ups w) t) = name (heap w t)"
proof (induction ups arbitrary: w)
  case Nil
  show ?case by (simp add: send_updates_Nil)
next
  case (Cons u ups)
  obtain nn nb pfx where u: "u = (nn, nb, pfx)" by (cases u)
  show ?case
    by (simp add: u send_updates_Cons Cons.IH neighbors_receiveRoutingUpdate name_receiveRoutingUpdate)
qed

lemma receiveRoutingUpdate_later_entries:
  assumes "i < length (routingTable (heap w t))" and "fst (routingTable (heap w t) ! i) = pfx"
  shows "map fst (routingTable (heap (receiveRoutingUpdate nb pfx nh m w) t)) = map fst (routingTable (heap w t))
       \<and> drop (Suc i) (routingTable (heap (receiveRoutingUpdate nb pfx nh m w) t))
            = drop (Suc i) (routingTable (heap w t))"
proof (intro conjI)
  from assms have "pfx \<in> fst ` set (routingTable (heap w t))"
    by (metis image_eqI nth_mem)
  then show "map fst (routingTable (heap (receiveRoutingUpdate nb pfx nh m w) t))
               = map fst (routingTable (heap w t))"
    by (rule keys_receiveRoutingUpdate)
next
  show "drop (Suc i) (routingTable (heap (receiveRoutingUpdate nb pfx nh m w) t))
          = drop (Suc i) (routingTable (heap w t))"
    using assms
    by (cases "t = nb") (simp_all add: receiveRoutingUpdate_def console_log_def drop_Map_set)
qed

lemma send_updates_later_entries:
  assumes "i < length (routingTable (heap w t))" and "fst (routingTable (heap w t) ! i) = pfx"
    and "list_all (\<lambda>u. snd (snd u) = pfx) ups"
  shows "map fst (routingTable (heap (send_updates selfId ups w) t)) = map fst (routingTable (heap w t))
       \<and> drop (Suc i) (routingTable (heap (send_updates selfId ups w) t))
            = drop (Suc i) (routingTable (heap w t))"
  using assms
proof (induction ups arbitrary: w)
  case Nil
  show ?case by (simp add: send_updates_Nil)
next
  case (Cons u ups)
  obtain nn nb where u: "u = (nn, nb, pfx)" using Cons.prems(3) by (cases u) auto
  let ?w' = "receiveRoutingUpdate nb pfx selfId None w"
  have step: "map fst (routingTable (heap ?w' t)) = map fst (routingTable (heap w t))"
    "drop (Suc i) (routingTable (heap ?w' t)) = drop (Suc i) (routingTable (heap w t))"
    using receiveRoutingUpdate_later_entries [OF Cons.prems(1,2)] by simp_all
  have len: "length (routingTable (heap ?w' t)) = length (routingTable (heap w t))"
    using step(1) by (metis length_map)
  have i': "i < length (routingTable (heap ?w' t))" using Cons.prems(1) len by simp
  have "fst (routingTable (heap ?w' t) ! i) = map fst (routingTable (heap ?w' t)) ! i"
    using i' by simp
  also have "\<dots> = fst (routingTable (heap w t) ! i)"
    using Cons.prems(1) by (simp only: step(1)) simp
  finally have key': "fst (routingTable (heap ?w' t) ! i) = pfx" using Cons.prems(2) by simp
  have "list_all (\<lambda>u. snd (snd u) = pfx) ups" using Cons.prems(3) by simp
  from Cons.IH [OF i' key' this] step show ?case
    by (simp add: u send_updates_Cons)
qed

lemma entry_updates_prefix: "list_all (\<lambda>u. snd (snd u) = pfx) (entry_updates nbs pfx nh)"
  by (induction nbs) (auto simp: entry_updates_Nil entry_updates_Cons)

lemma advertise_entries_sends:
  "advertise_entries this i w
     = send_updates (name (heap w this))
         (split_horizon_updates ((heap w this)\<lparr>routingTable := drop i (routingTable (heap w this))\<rparr>)) w"
proof (induction this i w rule: advertise_entries.induct)
  case (1 this i w)
  let ?tbl = "routingTable (heap w this)"
  show ?case
  proof (cases "i < length ?tbl")
    case False
    then show ?thesis
      by (simp add: advertise_entries.simps [of this i w] split_horizon_updates_def send_updates_Nil)
  next
    case True
    obtain pfx nh where e: "?tbl ! i = (pfx, nh)" by (cases "?tbl ! i")
    let ?ups = "entry_updates (neighbors (heap w this)) pfx nh"
    let ?w' = "advertise_neighbors this pfx nh 0 w"
    have w': "?w' = send_updates (name (heap w this)) ?ups w"
      by (simp add: advertise_neighbors_sends)
    have same: "neighbors (heap ?w' this) = neighbors (heap w this)"
      "name (heap ?w' this) = name (heap w this)"
      by (simp_all only: w' send_updates_same)
    have later: "drop (Suc i) (routingTable (heap ?w' this)) = drop (Suc i) ?tbl"
      using send_updates_later_entries
              [where i = i and w = w and t = this and pfx = pfx and ups = "?ups"
                 and selfId = "name (heap w this)"]
            True e entry_updates_prefix [of pfx "neighbors (heap w this)" nh]
      by (simp only: w') simp
    have dr: "drop i ?tbl = (pfx, nh) # drop (Suc i) ?tbl"
      using True e by (simp add: Cons_nth_drop_Suc [symmetric])
    have "advertise_entries this i w = advertise_entries this (Suc i) ?w'"
      using True e by (simp add: advertise_entries.simps [of this i w])
    also have "\<dots> = send_updates (name (heap w this))
          (split_horizon_updates ((heap ?w' this)\<lparr>routingTable := drop (Suc i) ?tbl\<rparr>)) ?w'"
      using "1.IH" [OF True e [symmetric]] by (simp only: same later)
    also have "split_horizon_updates ((heap ?w' this)\<lparr>routingTable := drop (Suc i) ?tbl\<rparr>)
                 = split_horizon_updates ((heap w this)\<lparr>routingTable := drop (Suc i) ?tbl\<rparr>)"
      by (simp add: split_horizon_updates_def same)
    also have "send_updates (name (heap w this))
                 (split_horizon_updates ((heap w this)\<lparr>routingTable := drop (Suc i) ?tbl\<rparr>)) ?w'
               = send_updates (name (heap w this))
                 (split_horizon_updates ((heap w this)\<lparr>routingTable := drop i ?tbl\<rparr>)) w"
      by (simp only: w' send_updates_append [symmetric])
         (simp add: dr split_horizon_updates_Cons [of _ pfx nh "drop (Suc i) ?tbl"])
    finally show ?thesis .
  qed
qed

lemma advertiseRoutes_sends:
  "advertiseRoutes this w
     = send_updates (name (heap w this)) (split_horizon_updates (heap w this))
         (console_log (''ADVERTISE ['' @ name (heap w this) @ '']: Advertising its routes to all neighbors.'') w)"
  by (simp add: advertiseRoutes_def advertise_entries_sends console_log_def)

lemma split_horizon_updates_set:
  "(nn, nb, pfx) \<in> set (split_horizon_updates r) \<longleftrightarrow>
     (nn, nb) \<in> set (neighbors r) \<and> (\<exists>nh. (pfx, nh) \<in> set (routingTable r) \<and> nn \<noteq> nh)"
  by (auto simp: split_horizon_updates_def)

lemma Map_get_Some_mem: "Map_get m k = Some v \<Longrightarrow> (k, v) \<in> set m"
  by (induction m) (auto split: if_splits)

text \<open>
  C1. Split horizon. \<open>advertiseRoutes\<close>, with its two loops over the live maps, does
  what sending the updates of \<open>split_horizon_updates\<close> in order does, after its one
  message on the console: every call is \<open>receiveRoutingUpdate\<close> of a neighbor with a
  prefix of the table and the router's own name. For every entry of the table, every
  neighbor registered under a name other than the entry's next hop gets the update for
  the prefix; every update sent is of that kind; and, the table having one entry for each
  prefix, no update for a prefix goes to the neighbor registered under the name recorded
  as the next hop of the prefix.
\<close>

theorem advertiseRoutes_split_horizon:
  "advertiseRoutes this w
     = send_updates (name (heap w this)) (split_horizon_updates (heap w this))
         (console_log (''ADVERTISE ['' @ name (heap w this) @ '']: Advertising its routes to all neighbors.'') w)
   \<and> (\<forall>prefix nextHop neighborName neighbor.
         (prefix, nextHop) \<in> set (routingTable (heap w this))
         \<and> (neighborName, neighbor) \<in> set (neighbors (heap w this))
         \<and> neighborName \<noteq> nextHop
         \<longrightarrow> (neighborName, neighbor, prefix) \<in> set (split_horizon_updates (heap w this)))
   \<and> (\<forall>prefix neighborName neighbor.
         (neighborName, neighbor, prefix) \<in> set (split_horizon_updates (heap w this))
         \<longrightarrow> (neighborName, neighbor) \<in> set (neighbors (heap w this))
             \<and> (\<exists>nextHop. (prefix, nextHop) \<in> set (routingTable (heap w this))
                    \<and> neighborName \<noteq> nextHop))
   \<and> (\<forall>prefix nextHop neighbor.
         distinct (map fst (routingTable (heap w this)))
         \<and> Map_get (routingTable (heap w this)) prefix = Some nextHop
         \<longrightarrow> (nextHop, neighbor, prefix) \<notin> set (split_horizon_updates (heap w this)))"
proof (intro conjI allI impI)
  show "advertiseRoutes this w
     = send_updates (name (heap w this)) (split_horizon_updates (heap w this))
         (console_log (''ADVERTISE ['' @ name (heap w this) @ '']: Advertising its routes to all neighbors.'') w)"
    by (rule advertiseRoutes_sends)
next
  fix prefix nextHop neighborName neighbor
  assume "(prefix, nextHop) \<in> set (routingTable (heap w this))
         \<and> (neighborName, neighbor) \<in> set (neighbors (heap w this))
         \<and> neighborName \<noteq> nextHop"
  then show "(neighborName, neighbor, prefix) \<in> set (split_horizon_updates (heap w this))"
    by (auto simp: split_horizon_updates_set)
next
  fix prefix neighborName neighbor
  assume "(neighborName, neighbor, prefix) \<in> set (split_horizon_updates (heap w this))"
  then show "(neighborName, neighbor) \<in> set (neighbors (heap w this))"
    by (simp add: split_horizon_updates_set)
next
  fix prefix neighborName neighbor
  assume "(neighborName, neighbor, prefix) \<in> set (split_horizon_updates (heap w this))"
  then show "\<exists>nextHop. (prefix, nextHop) \<in> set (routingTable (heap w this)) \<and> neighborName \<noteq> nextHop"
    by (simp add: split_horizon_updates_set)
next
  fix prefix nextHop neighbor
  assume a: "distinct (map fst (routingTable (heap w this)))
         \<and> Map_get (routingTable (heap w this)) prefix = Some nextHop"
  show "(nextHop, neighbor, prefix) \<notin> set (split_horizon_updates (heap w this))"
  proof
    assume "(nextHop, neighbor, prefix) \<in> set (split_horizon_updates (heap w this))"
    then obtain nh where nh: "(prefix, nh) \<in> set (routingTable (heap w this))" "nextHop \<noteq> nh"
      by (auto simp: split_horizon_updates_set)
    from a have "(prefix, nextHop) \<in> set (routingTable (heap w this))"
      by (simp add: Map_get_Some_mem)
    with nh(1) a have "nh = nextHop"
      by (meson eq_key_imp_eq_value)
    with nh(2) show False by simp
  qed
qed

theorem advertiseRoutes_split_horizon_witness:
  "(''192.168.1.0/24'', ''R1'') \<in> set (routingTable (heap hub_world 0))
   \<and> (''R3'', 2) \<in> set (neighbors (heap hub_world 0))
   \<and> ''R3'' \<noteq> ''R1''
   \<and> (''R3'', 2, ''192.168.1.0/24'') \<in> set (split_horizon_updates (heap hub_world 0))
   \<and> (''R3'', 2) \<in> set (neighbors (heap hub_world 0))
   \<and> distinct (map fst (routingTable (heap hub_world 0)))
   \<and> Map_get (routingTable (heap hub_world 0)) ''192.168.1.0/24'' = Some ''R1''
   \<and> (''R1'', 1, ''192.168.1.0/24'') \<notin> set (split_horizon_updates (heap hub_world 0))
   \<and> split_horizon_updates (heap hub_world 0)
        = [(''R1'', 1, ''192.168.2.0/24''), (''R3'', 2, ''192.168.2.0/24''),
           (''R3'', 2, ''192.168.1.0/24''), (''R1'', 1, ''192.168.3.0/24'')]
   \<and> console (advertiseRoutes 0 hub_world)
        = [''ADVERTISE [R2]: Advertising its routes to all neighbors.'',
           ''UPDATE [R1]: Received route for 192.168.2.0/24 via R2'',
           ''UPDATE [R3]: Received route for 192.168.2.0/24 via R2'',
           ''UPDATE [R3]: Received route for 192.168.1.0/24 via R2'',
           ''UPDATE [R1]: Received route for 192.168.3.0/24 via R2'']
   \<and> routingTable (heap (advertiseRoutes 0 hub_world) 1)
        = [(''192.168.1.0/24'', ''R1''), (''192.168.2.0/24'', ''R2''), (''192.168.3.0/24'', ''R2'')]
   \<and> routingTable (heap (advertiseRoutes 0 hub_world) 2)
        = [(''192.168.3.0/24'', ''R3''), (''192.168.2.0/24'', ''R2''), (''192.168.1.0/24'', ''R2'')]"
  using advertiseRoutes_split_horizon [of 0 hub_world]
  by (simp add: hub_world_def split_horizon_updates_def send_updates_def receiveRoutingUpdate_def
      console_log_def)

section \<open>Packet forwarding\<close>

subsection \<open>The four ways one call can go\<close>

declare receivePacket.simps [simp del]

lemma receivePacket_expired:
  "ttl p \<le> 1 \<Longrightarrow>
   receivePacket this p w =
     (p\<lparr>ttl := ttl p - 1\<rparr>,
      w\<lparr>console := console w @
          [''RECEIVE ['' @ name (heap w this) @ '']: Received '' @ toString p,
           ''DROP ['' @ name (heap w this) @ '']: Packet TTL expired. Dropping.'']\<rparr>)"
  by (simp add: receivePacket.simps [of this p w] console_log_def Let_def)

lemma receivePacket_no_route:
  "1 < ttl p \<Longrightarrow>
   Map_get (routingTable (heap w this)) (getNetworkPrefix (destinationIp p)) = None \<Longrightarrow>
   receivePacket this p w =
     (p\<lparr>ttl := ttl p - 1\<rparr>,
      w\<lparr>console := console w @
          [''RECEIVE ['' @ name (heap w this) @ '']: Received '' @ toString p,
           ''DROP ['' @ name (heap w this) @ '']: No route to ''
              @ getNetworkPrefix (destinationIp p) @ ''. Dropping packet.'']\<rparr>)"
  by (simp add: receivePacket.simps [of this p w] console_log_def Let_def)

lemma receivePacket_deliver:
  "1 < ttl p \<Longrightarrow>
   Map_get (routingTable (heap w this)) (getNetworkPrefix (destinationIp p)) = Some nextHop \<Longrightarrow>
   Map_get (neighbors (heap w this)) nextHop = None \<Longrightarrow>
   receivePacket this p w =
     (p\<lparr>ttl := ttl p - 1\<rparr>,
      w\<lparr>console := console w @
          [''RECEIVE ['' @ name (heap w this) @ '']: Received '' @ toString p,
           ''DELIVER ['' @ name (heap w this) @ '']: Destination '' @ destinationIp p
              @ '' is on a directly connected network. Delivered.'']\<rparr>)"
  by (simp add: receivePacket.simps [of this p w] console_log_def Let_def)

lemma receivePacket_forward:
  "1 < ttl p \<Longrightarrow>
   Map_get (routingTable (heap w this)) (getNetworkPrefix (destinationIp p)) = Some nextHop \<Longrightarrow>
   Map_get (neighbors (heap w this)) nextHop = Some nextHopRouter \<Longrightarrow>
   receivePacket this p w =
     receivePacket nextHopRouter (p\<lparr>ttl := ttl p - 1\<rparr>)
       (w\<lparr>console := console w @
          [''RECEIVE ['' @ name (heap w this) @ '']: Received '' @ toString p,
           ''FORWARD ['' @ name (heap w this) @ '']: Forwarding packet for '' @ destinationIp p
              @ '' to '' @ name (heap w nextHopRouter)]\<rparr>)"
  by (simp add: receivePacket.simps [of this p w] console_log_def Let_def)

lemma is_RECEIVE_messages:
  "is_RECEIVE (''RECEIVE ['' @ a)"
  "\<not> is_RECEIVE (''DROP ['' @ a)"
  "\<not> is_RECEIVE (''DELIVER ['' @ a)"
  "\<not> is_RECEIVE (''FORWARD ['' @ a)"
  by (simp_all add: is_RECEIVE_def starts_with_def)

lemma is_TTL_expired_messages:
  "is_TTL_expired (''DROP ['' @ n @ '']: Packet TTL expired. Dropping.'')"
  "\<not> is_TTL_expired (''DROP ['' @ n @ '']: No route to '' @ x @ ''. Dropping packet.'')"
  "\<not> is_TTL_expired (''RECEIVE ['' @ a)"
  "\<not> is_TTL_expired (''DELIVER ['' @ a)"
  "\<not> is_TTL_expired (''FORWARD ['' @ a)"
  by (simp_all add: is_TTL_expired_def starts_with_def ends_with_def)

lemmas message_kinds = is_RECEIVE_messages [simplified] is_TTL_expired_messages [simplified]

subsection \<open>The whole journey of a packet\<close>

lemma invocations_Cons:
  "invocations (msg # out) = (if is_RECEIVE msg then Suc (invocations out) else invocations out)"
  by (simp add: invocations_def)

lemma invocations_Nil: "invocations [] = 0"
  by (simp add: invocations_def)

text \<open>One invocation that ends the journey: it logs RECEIVE and then its verdict.\<close>

lemma journey_end:
  assumes res: "receivePacket this p w = (p\<lparr>ttl := ttl p - 1\<rparr>, w\<lparr>console := console w @ [rcv, verdict]\<rparr>)"
    and rcv: "is_RECEIVE rcv" and verdict: "\<not> is_RECEIVE verdict"
    and expired: "is_TTL_expired verdict \<longleftrightarrow> ttl p - 1 \<le> 0"
    and rcv': "\<not> is_TTL_expired rcv"
  shows "\<exists>out. snd (receivePacket this p w) = w\<lparr>console := console w @ out\<rparr>
       \<and> fst (receivePacket this p w) = p\<lparr>ttl := ttl p - int (invocations out)\<rparr>
       \<and> length out = 2 * invocations out
       \<and> 1 \<le> invocations out
       \<and> int (invocations out) \<le> max 1 (ttl p)
       \<and> is_RECEIVE (out ! 0)
       \<and> (is_TTL_expired (out ! 1) \<longleftrightarrow> ttl p - 1 \<le> 0)
       \<and> (list_ex is_TTL_expired out \<longleftrightarrow> ttl p - int (invocations out) \<le> 0)"
proof -
  have inv: "invocations [rcv, verdict] = 1"
    using rcv verdict by (simp add: invocations_Cons invocations_Nil)
  show ?thesis
    apply (rule exI [of _ "[rcv, verdict]"])
    apply (simp only: inv res)
    using rcv rcv' expired apply simp
    done
qed

lemma receivePacket_journey:
  "\<exists>out. snd (receivePacket this p w) = w\<lparr>console := console w @ out\<rparr>
       \<and> fst (receivePacket this p w) = p\<lparr>ttl := ttl p - int (invocations out)\<rparr>
       \<and> length out = 2 * invocations out
       \<and> 1 \<le> invocations out
       \<and> int (invocations out) \<le> max 1 (ttl p)
       \<and> is_RECEIVE (out ! 0)
       \<and> (is_TTL_expired (out ! 1) \<longleftrightarrow> ttl p - 1 \<le> 0)
       \<and> (list_ex is_TTL_expired out \<longleftrightarrow> ttl p - int (invocations out) \<le> 0)"
proof (induction "nat (ttl p)" arbitrary: this p w rule: less_induct)
  case less
  define rcv where "rcv = ''RECEIVE ['' @ name (heap w this) @ '']: Received '' @ toString p"
  have rcv: "is_RECEIVE rcv" "\<not> is_TTL_expired rcv"
    by (simp_all add: rcv_def message_kinds)
  let ?dst = "getNetworkPrefix (destinationIp p)"
  show ?case
  proof (cases "ttl p \<le> 1")
    case True
    show ?thesis
    proof (rule journey_end [OF _ rcv(1) _ _ rcv(2)])
      show "receivePacket this p w = (p\<lparr>ttl := ttl p - 1\<rparr>, w\<lparr>console := console w @
               [rcv, ''DROP ['' @ name (heap w this) @ '']: Packet TTL expired. Dropping.'']\<rparr>)"
        unfolding rcv_def by (rule receivePacket_expired [OF True])
    qed (use True in \<open>simp_all add: message_kinds\<close>)
  next
    case False
    then have big: "1 < ttl p" by simp
    show ?thesis
    proof (cases "Map_get (routingTable (heap w this)) ?dst")
      case None
      show ?thesis
      proof (rule journey_end [OF _ rcv(1) _ _ rcv(2)])
        show "receivePacket this p w = (p\<lparr>ttl := ttl p - 1\<rparr>, w\<lparr>console := console w @
               [rcv, ''DROP ['' @ name (heap w this) @ '']: No route to '' @ ?dst @ ''. Dropping packet.'']\<rparr>)"
          unfolding rcv_def by (rule receivePacket_no_route [OF big None])
      qed (use big in \<open>simp_all add: message_kinds\<close>)
    next
      case (Some nextHop)
      show ?thesis
      proof (cases "Map_get (neighbors (heap w this)) nextHop")
        case None
        show ?thesis
        proof (rule journey_end [OF _ rcv(1) _ _ rcv(2)])
          show "receivePacket this p w = (p\<lparr>ttl := ttl p - 1\<rparr>, w\<lparr>console := console w @
               [rcv, ''DELIVER ['' @ name (heap w this) @ '']: Destination '' @ destinationIp p
                  @ '' is on a directly connected network. Delivered.'']\<rparr>)"
            unfolding rcv_def by (rule receivePacket_deliver [OF big Some None])
        qed (use big in \<open>simp_all add: message_kinds\<close>)
      next
        case nb: (Some nextHopRouter)
        define fwd where "fwd = ''FORWARD ['' @ name (heap w this) @ '']: Forwarding packet for ''
              @ destinationIp p @ '' to '' @ name (heap w nextHopRouter)"
        have fwd: "\<not> is_RECEIVE fwd" "\<not> is_TTL_expired fwd"
          by (simp_all add: fwd_def message_kinds)
        let ?p1 = "p\<lparr>ttl := ttl p - 1\<rparr>"
        let ?w1 = "w\<lparr>console := console w @ [rcv, fwd]\<rparr>"
        have step: "receivePacket this p w = receivePacket nextHopRouter ?p1 ?w1"
          unfolding rcv_def fwd_def by (rule receivePacket_forward [OF big Some nb])
        have "nat (ttl ?p1) < nat (ttl p)" using big by simp
        from less [OF this, of nextHopRouter ?w1]
        obtain out where
          w': "snd (receivePacket nextHopRouter ?p1 ?w1) = ?w1\<lparr>console := console ?w1 @ out\<rparr>"
          and p': "fst (receivePacket nextHopRouter ?p1 ?w1) = ?p1\<lparr>ttl := ttl ?p1 - int (invocations out)\<rparr>"
          and len: "length out = 2 * invocations out"
          and pos: "1 \<le> invocations out"
          and bound: "int (invocations out) \<le> max 1 (ttl ?p1)"
          and expired: "list_ex is_TTL_expired out \<longleftrightarrow> ttl ?p1 - int (invocations out) \<le> 0"
          by blast
        let ?out = "rcv # fwd # out"
        have inv: "invocations ?out = Suc (invocations out)"
          using rcv fwd by (simp add: invocations_Cons)
        have "snd (receivePacket this p w) = w\<lparr>console := console w @ ?out\<rparr>"
          by (simp only: step w') simp
        moreover have "fst (receivePacket this p w) = p\<lparr>ttl := ttl p - int (invocations ?out)\<rparr>"
          by (simp only: step p' inv) (simp add: algebra_simps)
        moreover have "length ?out = 2 * invocations ?out"
          using len by (simp add: inv)
        moreover have "1 \<le> invocations ?out" by (simp add: inv)
        moreover have "int (invocations ?out) \<le> max 1 (ttl p)"
          using bound big by (simp add: inv)
        moreover have "is_RECEIVE (?out ! 0)" using rcv by simp
        moreover have "is_TTL_expired (?out ! 1) \<longleftrightarrow> ttl p - 1 \<le> 0"
          using big fwd by simp
        moreover have "list_ex is_TTL_expired ?out \<longleftrightarrow> ttl p - int (invocations ?out) \<le> 0"
          using expired rcv fwd by (simp add: inv algebra_simps)
        ultimately show ?thesis by blast
      qed
    qed
  qed
qed

lemma Map_get_None: "Map_get m k = None \<longleftrightarrow> k \<notin> fst ` set m"
  by (induction m) (auto split: if_splits)

lemma output_since_append: "output_since w (w\<lparr>console := console w @ out\<rparr>) = out"
  by (simp add: output_since_def)

text \<open>
  C2. A packet is made with ttl 32. For any call of \<open>receivePacket\<close>, the ttl of the
  packet afterwards is the ttl before minus the number of calls of \<open>receivePacket\<close> the
  packet went through (at least one; each logs two messages), so a packet from the
  constructor that went through N routers has ttl 32 - N. The call drops the packet for
  its TTL exactly when the ttl after its decrement is 0 or less, and it then does nothing
  else; over the journey, a TTL drop is logged exactly when the packet ends with a ttl of 0
  or less.
\<close>

theorem receivePacket_ttl_accounting:
  "ttl (Packet src dst payload) = 32
   \<and> (let p' = fst (receivePacket this p w);
           out = output_since w (snd (receivePacket this p w))
       in ttl p' = ttl p - int (invocations out)
          \<and> 1 \<le> invocations out
          \<and> length out = 2 * invocations out
          \<and> is_RECEIVE (out ! 0)
          \<and> (is_TTL_expired (out ! 1) \<longleftrightarrow> ttl p - 1 \<le> 0)
          \<and> (list_ex is_TTL_expired out \<longleftrightarrow> ttl p' \<le> 0))
   \<and> (ttl p - 1 \<le> 0 \<longrightarrow>
         receivePacket this p w =
           (p\<lparr>ttl := ttl p - 1\<rparr>,
            w\<lparr>console := console w @
                [''RECEIVE ['' @ name (heap w this) @ '']: Received '' @ toString p,
                 ''DROP ['' @ name (heap w this) @ '']: Packet TTL expired. Dropping.'']\<rparr>))"
proof (intro conjI impI)
  show "ttl (Packet src dst payload) = 32" by (simp add: Packet_def)
next
  obtain out where
    w': "snd (receivePacket this p w) = w\<lparr>console := console w @ out\<rparr>"
    and p': "fst (receivePacket this p w) = p\<lparr>ttl := ttl p - int (invocations out)\<rparr>"
    and rest: "length out = 2 * invocations out" "1 \<le> invocations out" "is_RECEIVE (out ! 0)"
      "is_TTL_expired (out ! 1) \<longleftrightarrow> ttl p - 1 \<le> 0"
      "list_ex is_TTL_expired out \<longleftrightarrow> ttl p - int (invocations out) \<le> 0"
    using receivePacket_journey [of this p w] by blast
  show "let p' = fst (receivePacket this p w);
            out = output_since w (snd (receivePacket this p w))
        in ttl p' = ttl p - int (invocations out)
          \<and> 1 \<le> invocations out
          \<and> length out = 2 * invocations out
          \<and> is_RECEIVE (out ! 0)
          \<and> (is_TTL_expired (out ! 1) \<longleftrightarrow> ttl p - 1 \<le> 0)
          \<and> (list_ex is_TTL_expired out \<longleftrightarrow> ttl p' \<le> 0)"
    unfolding Let_def w' p' output_since_append using rest by simp
next
  assume "ttl p - 1 \<le> 0"
  then have "ttl p \<le> 1" by simp
  then show "receivePacket this p w =
           (p\<lparr>ttl := ttl p - 1\<rparr>,
            w\<lparr>console := console w @
                [''RECEIVE ['' @ name (heap w this) @ '']: Received '' @ toString p,
                 ''DROP ['' @ name (heap w this) @ '']: Packet TTL expired. Dropping.'']\<rparr>)"
    by (rule receivePacket_expired)
qed

theorem receivePacket_ttl_accounting_witness:
  "ttl ((Packet ''10.0.0.1'' ''10.0.0.5'' ''hi'')\<lparr>ttl := 1\<rparr>) - 1 \<le> 0
   \<and> receivePacket 0 ((Packet ''10.0.0.1'' ''10.0.0.5'' ''hi'')\<lparr>ttl := 1\<rparr>) example_world =
        (\<lparr>sourceIp = ''10.0.0.1'', destinationIp = ''10.0.0.5'', content = ''hi'', ttl = 0\<rparr>,
         example_world\<lparr>console :=
                [''RECEIVE [R1]: Received Packet from 10.0.0.1 to 10.0.0.5'',
                 ''DROP [R1]: Packet TTL expired. Dropping.'']\<rparr>)"
  using receivePacket_ttl_accounting
          [where p = "(Packet ''10.0.0.1'' ''10.0.0.5'' ''hi'')\<lparr>ttl := 1\<rparr>"
             and this = 0 and w = example_world]
  by (simp add: Packet_def example_world_def toString_def)

text \<open>
  C3. A call of \<open>receivePacket\<close> on a packet whose ttl is still positive after the
  decrement: if the prefix of the destination is no key of the routing table, the packet
  is dropped and nothing is forwarded; if the table's next hop is a key of the neighbors,
  the call is the call of that neighbor's \<open>receivePacket\<close> on the same packet; if it is
  not, the packet is delivered here and nothing is forwarded.
\<close>

theorem receivePacket_decision:
  "1 < ttl p \<longrightarrow>
     (getNetworkPrefix (destinationIp p) \<notin> fst ` set (routingTable (heap w this)) \<longrightarrow>
        receivePacket this p w =
          (p\<lparr>ttl := ttl p - 1\<rparr>,
           w\<lparr>console := console w @
               [''RECEIVE ['' @ name (heap w this) @ '']: Received '' @ toString p,
                ''DROP ['' @ name (heap w this) @ '']: No route to ''
                   @ getNetworkPrefix (destinationIp p) @ ''. Dropping packet.'']\<rparr>))
   \<and> (\<forall>nextHop nextHopRouter.
        Map_get (routingTable (heap w this)) (getNetworkPrefix (destinationIp p)) = Some nextHop
        \<and> Map_get (neighbors (heap w this)) nextHop = Some nextHopRouter \<longrightarrow>
        receivePacket this p w =
          receivePacket nextHopRouter (p\<lparr>ttl := ttl p - 1\<rparr>)
            (w\<lparr>console := console w @
               [''RECEIVE ['' @ name (heap w this) @ '']: Received '' @ toString p,
                ''FORWARD ['' @ name (heap w this) @ '']: Forwarding packet for '' @ destinationIp p
                   @ '' to '' @ name (heap w nextHopRouter)]\<rparr>))
   \<and> (\<forall>nextHop.
        Map_get (routingTable (heap w this)) (getNetworkPrefix (destinationIp p)) = Some nextHop
        \<and> nextHop \<notin> fst ` set (neighbors (heap w this)) \<longrightarrow>
        receivePacket this p w =
          (p\<lparr>ttl := ttl p - 1\<rparr>,
           w\<lparr>console := console w @
               [''RECEIVE ['' @ name (heap w this) @ '']: Received '' @ toString p,
                ''DELIVER ['' @ name (heap w this) @ '']: Destination '' @ destinationIp p
                   @ '' is on a directly connected network. Delivered.'']\<rparr>))"
proof (intro impI conjI allI)
  assume big: "1 < ttl p"
    assume "getNetworkPrefix (destinationIp p) \<notin> fst ` set (routingTable (heap w this))"
    then have "Map_get (routingTable (heap w this)) (getNetworkPrefix (destinationIp p)) = None"
      by (simp add: Map_get_None)
    from receivePacket_no_route [OF big this]
    show "receivePacket this p w =
          (p\<lparr>ttl := ttl p - 1\<rparr>,
           w\<lparr>console := console w @
               [''RECEIVE ['' @ name (heap w this) @ '']: Received '' @ toString p,
                ''DROP ['' @ name (heap w this) @ '']: No route to ''
                   @ getNetworkPrefix (destinationIp p) @ ''. Dropping packet.'']\<rparr>)" .
next
  assume big: "1 < ttl p"
    fix nextHop nextHopRouter
    assume "Map_get (routingTable (heap w this)) (getNetworkPrefix (destinationIp p)) = Some nextHop
        \<and> Map_get (neighbors (heap w this)) nextHop = Some nextHopRouter"
    then show "receivePacket this p w =
          receivePacket nextHopRouter (p\<lparr>ttl := ttl p - 1\<rparr>)
            (w\<lparr>console := console w @
               [''RECEIVE ['' @ name (heap w this) @ '']: Received '' @ toString p,
                ''FORWARD ['' @ name (heap w this) @ '']: Forwarding packet for '' @ destinationIp p
                   @ '' to '' @ name (heap w nextHopRouter)]\<rparr>)"
      using receivePacket_forward [OF big] by blast
next
  assume big: "1 < ttl p"
    fix nextHop
    assume "Map_get (routingTable (heap w this)) (getNetworkPrefix (destinationIp p)) = Some nextHop
        \<and> nextHop \<notin> fst ` set (neighbors (heap w this))"
    then have "Map_get (routingTable (heap w this)) (getNetworkPrefix (destinationIp p)) = Some nextHop"
      and "Map_get (neighbors (heap w this)) nextHop = None"
      by (simp_all add: Map_get_None)
    from receivePacket_deliver [OF big this]
    show "receivePacket this p w =
          (p\<lparr>ttl := ttl p - 1\<rparr>,
           w\<lparr>console := console w @
               [''RECEIVE ['' @ name (heap w this) @ '']: Received '' @ toString p,
                ''DELIVER ['' @ name (heap w this) @ '']: Destination '' @ destinationIp p
                   @ '' is on a directly connected network. Delivered.'']\<rparr>)" .
qed

theorem receivePacket_decision_witness:
  "1 < ttl (Packet ''10.0.0.1'' ''10.9.9.9'' ''hi'')
   \<and> getNetworkPrefix (destinationIp (Packet ''10.0.0.1'' ''10.9.9.9'' ''hi''))
        \<notin> fst ` set (routingTable (heap example_world 0))
   \<and> receivePacket 0 (Packet ''10.0.0.1'' ''10.9.9.9'' ''hi'') example_world =
        (\<lparr>sourceIp = ''10.0.0.1'', destinationIp = ''10.9.9.9'', content = ''hi'', ttl = 31\<rparr>,
         example_world\<lparr>console :=
            [''RECEIVE [R1]: Received Packet from 10.0.0.1 to 10.9.9.9'',
             ''DROP [R1]: No route to 10.9.9.0/24. Dropping packet.'']\<rparr>)
   \<and> 1 < ttl (Packet ''10.0.0.1'' ''10.0.0.5'' ''hi'')
   \<and> Map_get (routingTable (heap loop_world 0))
         (getNetworkPrefix (destinationIp (Packet ''10.0.0.1'' ''10.0.0.5'' ''hi''))) = Some ''B''
   \<and> Map_get (neighbors (heap loop_world 0)) ''B'' = Some 1
   \<and> receivePacket 0 (Packet ''10.0.0.1'' ''10.0.0.5'' ''hi'') loop_world =
        receivePacket 1 \<lparr>sourceIp = ''10.0.0.1'', destinationIp = ''10.0.0.5'', content = ''hi'', ttl = 31\<rparr>
          (loop_world\<lparr>console :=
            [''RECEIVE [A]: Received Packet from 10.0.0.1 to 10.0.0.5'',
             ''FORWARD [A]: Forwarding packet for 10.0.0.5 to B'']\<rparr>)
   \<and> Map_get (routingTable (heap example_world 0))
         (getNetworkPrefix (destinationIp (Packet ''10.0.0.1'' ''10.0.0.5'' ''hi''))) = Some ''R2''
   \<and> ''R2'' \<notin> fst ` set (neighbors (heap example_world 0))
   \<and> receivePacket 0 (Packet ''10.0.0.1'' ''10.0.0.5'' ''hi'') example_world =
        (\<lparr>sourceIp = ''10.0.0.1'', destinationIp = ''10.0.0.5'', content = ''hi'', ttl = 31\<rparr>,
         example_world\<lparr>console :=
            [''RECEIVE [R1]: Received Packet from 10.0.0.1 to 10.0.0.5'',
             ''DELIVER [R1]: Destination 10.0.0.5 is on a directly connected network. Delivered.'']\<rparr>)"
  using receivePacket_decision [of "Packet ''10.0.0.1'' ''10.9.9.9'' ''hi''" example_world 0]
        receivePacket_decision [of "Packet ''10.0.0.1'' ''10.0.0.5'' ''hi''" loop_world 0]
        receivePacket_decision [of "Packet ''10.0.0.1'' ''10.0.0.5'' ''hi''" example_world 0]
  by (simp add: Packet_def example_world_def loop_world_def toString_def getNetworkPrefix_def slice_def)

text \<open>
  C6. \<open>receivePacket\<close> is a total function, by the termination proof on the ttl, whatever
  the routers and their tables are. The number of calls one packet goes through is at most
  its ttl, or 1 when the ttl is less than 1: at most 32 for every packet with a ttl of at
  most 32, as the constructor makes them.
\<close>

theorem receivePacket_bounded:
  "int (invocations (output_since w (snd (receivePacket this p w)))) \<le> max 1 (ttl p)
   \<and> (ttl p \<le> 32 \<longrightarrow> invocations (output_since w (snd (receivePacket this p w))) \<le> 32)
   \<and> invocations (output_since w (snd (receivePacket this (Packet src dst payload) w))) \<le> 32"
proof -
  have bound: "int (invocations (output_since w (snd (receivePacket this q w)))) \<le> max 1 (ttl q)" for q
  proof -
    obtain out where
      "snd (receivePacket this q w) = w\<lparr>console := console w @ out\<rparr>"
      "int (invocations out) \<le> max 1 (ttl q)"
      using receivePacket_journey [of this q w] by blast
    then show ?thesis by (simp add: output_since_append)
  qed
  have "ttl p \<le> 32 \<Longrightarrow> invocations (output_since w (snd (receivePacket this p w))) \<le> 32"
    using bound [of p] by simp
  moreover have "invocations (output_since w (snd (receivePacket this (Packet src dst payload) w))) \<le> 32"
    using bound [of "Packet src dst payload"] by (simp add: Packet_def)
  ultimately show ?thesis using bound [of p] by blast
qed

theorem receivePacket_bounded_witness:
  "ttl (Packet ''10.0.0.1'' ''10.0.0.5'' ''hi'') \<le> 32
   \<and> invocations (output_since loop_world
         (snd (receivePacket 0 (Packet ''10.0.0.1'' ''10.0.0.5'' ''hi'') loop_world))) \<le> 32"
  using receivePacket_bounded [of loop_world 0 "Packet ''10.0.0.1'' ''10.0.0.5'' ''hi''"]
  by (simp add: Packet_def)

text \<open>The bound is reached between two routers that forward to each other.\<close>

lemma loop_invocations:
  "invocations (output_since loop_world
         (snd (receivePacket 0 (Packet ''10.0.0.1'' ''10.0.0.5'' ''hi'') loop_world))) = 32"
  by code_simp

text \<open>
  C8. \<open>receivePacket\<close> has a result for every router, packet and world, and the result
  is no error: it leaves the store as it was, every router with its routing table and
  its neighbors, whether the packet was dropped, delivered or forwarded; it only adds
  messages to the console; and of the packet only the ttl has changed.
\<close>

theorem receivePacket_silent:
  "heap (snd (receivePacket this p w)) = heap w
   \<and> next_ref (snd (receivePacket this p w)) = next_ref w
   \<and> (\<exists>out. console (snd (receivePacket this p w)) = console w @ out)
   \<and> fst (receivePacket this p w) = p\<lparr>ttl := ttl (fst (receivePacket this p w))\<rparr>"
proof -
  obtain out where
    w': "snd (receivePacket this p w) = w\<lparr>console := console w @ out\<rparr>"
    and p': "fst (receivePacket this p w) = p\<lparr>ttl := ttl p - int (invocations out)\<rparr>"
    using receivePacket_journey [of this p w] by blast
  show ?thesis
    by (simp only: w' p') simp
qed

section \<open>The simulation\<close>

text \<open>
  C4. \<open>runSimulation\<close>, from any world: the three routers are wired in a chain and seeded
  with their own networks, then R1, R3 and R2 advertise in this order. At the end, which
  is the state after the advertisements, since \<open>receivePacket\<close> leaves the store alone,
  the table of R1 maps 192.168.3.0/24 to R2 and the table of R3 maps 192.168.1.0/24 to R2;
  the three routers are given in full. The packet from 192.168.1.10 to 192.168.3.15 handed
  to R1 ends with ttl 29, and the console, given in full, shows its way in the last
  messages: received and forwarded by R1, received and forwarded by R2, received by R3 and
  delivered there.
\<close>

theorem runSimulation_end_to_end:
  "(case runSimulation w0 of (R1, R2, R3, myPacket, w) \<Rightarrow>
      Map_get (routingTable (heap w R1)) ''192.168.3.0/24'' = Some ''R2''
      \<and> Map_get (routingTable (heap w R3)) ''192.168.1.0/24'' = Some ''R2''
      \<and> heap w R1 = \<lparr>name = ''R1'',
            routingTable = [(''192.168.1.0/24'', ''R1''), (''192.168.2.0/24'', ''R2''),
                            (''192.168.3.0/24'', ''R2'')],
            neighbors = [(''R2'', R2)]\<rparr>
      \<and> heap w R2 = \<lparr>name = ''R2'',
            routingTable = [(''192.168.2.0/24'', ''R2''), (''192.168.1.0/24'', ''R1''),
                            (''192.168.3.0/24'', ''R3'')],
            neighbors = [(''R1'', R1), (''R3'', R3)]\<rparr>
      \<and> heap w R3 = \<lparr>name = ''R3'',
            routingTable = [(''192.168.3.0/24'', ''R3''), (''192.168.2.0/24'', ''R2''),
                            (''192.168.1.0/24'', ''R2'')],
            neighbors = [(''R2'', R2)]\<rparr>
      \<and> myPacket = \<lparr>sourceIp = ''192.168.1.10'', destinationIp = ''192.168.3.15'',
                       content = ''Hello World!'', ttl = 29\<rparr>
      \<and> console w = console w0 @
           [''--- Initializing Network Simulation ---\<newline>'',
            ''INFO [R1]: Established connection to neighbor R2'',
            ''INFO [R2]: Established connection to neighbor R1'',
            ''INFO [R2]: Established connection to neighbor R3'',
            ''INFO [R3]: Established connection to neighbor R2'',
            ''UPDATE [R1]: Received route for 192.168.1.0/24 via R1'',
            ''UPDATE [R2]: Received route for 192.168.2.0/24 via R2'',
            ''UPDATE [R3]: Received route for 192.168.3.0/24 via R3'',
            ''\<newline>--- Routing Tables Before Dynamic Updates ---'',
            ''\<newline>--- Routing Table for R1 ---'',
            ''Destination: 192.168.1.0/24 -> Next Hop: R1'',
            ''----------------------------------\<newline>'',
            ''\<newline>--- Routing Table for R2 ---'',
            ''Destination: 192.168.2.0/24 -> Next Hop: R2'',
            ''----------------------------------\<newline>'',
            ''\<newline>--- Routing Table for R3 ---'',
            ''Destination: 192.168.3.0/24 -> Next Hop: R3'',
            ''----------------------------------\<newline>'',
            ''\<newline>--- Simulating OSPF Convergence ---\<newline>'',
            ''ADVERTISE [R1]: Advertising its routes to all neighbors.'',
            ''UPDATE [R2]: Received route for 192.168.1.0/24 via R1'',
            ''ADVERTISE [R3]: Advertising its routes to all neighbors.'',
            ''UPDATE [R2]: Received route for 192.168.3.0/24 via R3'',
            ''ADVERTISE [R2]: Advertising its routes to all neighbors.'',
            ''UPDATE [R1]: Received route for 192.168.2.0/24 via R2'',
            ''UPDATE [R3]: Received route for 192.168.2.0/24 via R2'',
            ''UPDATE [R3]: Received route for 192.168.1.0/24 via R2'',
            ''UPDATE [R1]: Received route for 192.168.3.0/24 via R2'',
            ''\<newline>--- Routing Tables After Dynamic Updates ---'',
            ''\<newline>--- Routing Table for R1 ---'',
            ''Destination: 192.168.1.0/24 -> Next Hop: R1'',
            ''Destination: 192.168.2.0/24 -> Next Hop: R2'',
            ''Destination: 192.168.3.0/24 -> Next Hop: R2'',
            ''----------------------------------\<newline>'',
            ''\<newline>--- Routing Table for R2 ---'',
            ''Destination: 192.168.2.0/24 -> Next Hop: R2'',
            ''Destination: 192.168.1.0/24 -> Next Hop: R1'',
            ''Destination: 192.168.3.0/24 -> Next Hop: R3'',
            ''----------------------------------\<newline>'',
            ''\<newline>--- Routing Table for R3 ---'',
            ''Destination: 192.168.3.0/24 -> Next Hop: R3'',
            ''Destination: 192.168.2.0/24 -> Next Hop: R2'',
            ''Destination: 192.168.1.0/24 -> Next Hop: R2'',
            ''----------------------------------\<newline>'',
            ''\<newline>--- Simulating Packet Transmission ---'',
            ''Starting transmission of Packet from 192.168.1.10 to 192.168.3.15 from R1...'',
            ''RECEIVE [R1]: Received Packet from 192.168.1.10 to 192.168.3.15'',
            ''FORWARD [R1]: Forwarding packet for 192.168.3.15 to R2'',
            ''RECEIVE [R2]: Received Packet from 192.168.1.10 to 192.168.3.15'',
            ''FORWARD [R2]: Forwarding packet for 192.168.3.15 to R3'',
            ''RECEIVE [R3]: Received Packet from 192.168.1.10 to 192.168.3.15'',
            ''DELIVER [R3]: Destination 192.168.3.15 is on a directly connected network. Delivered.'',
            ''\<newline>--- Simulation Complete ---''])"
  apply (unfold runSimulation_def Let_def new_Router_def prod.case)
  apply (simp add: addNeighbor_def receiveRoutingUpdate_def console_log_def printRoutingTable_def
      advertiseRoutes_sends send_updates_def split_horizon_updates_def
      Packet_def toString_def receivePacket.simps getNetworkPrefix_def slice_def)
  apply (simp add: Let_def)
  done

end
